theory Spec2Isabelle
  imports Main "HOL-Library.Word" "HOL-Library.Sublist"
begin

unbundle bit_operations_syntax

section \<open>The plugin rack of SLURM (src/common/plugrack.c, tag slurm-0-2-5-1)\<close>

text \<open>
  A shallow embedding of \<^verbatim>\<open>plugrack.c\<close>. The rack is a record, the list of
  entries a HOL list in insertion order, every public function returns its status (or
  handle) together with the rack after the call and the log of the calls made to the
  plugin loader. A nullable pointer argument is an \<open>option\<close>, \<open>None\<close> being
  \<^verbatim>\<open>NULL\<close>. A function that may not return (a failed assertion, the decrement of
  the least \<^verbatim>\<open>int\<close>) returns an \<open>option\<close>, \<open>None\<close> being the call that does not
  return.
\<close>

subsection \<open>Values that come from headers\<close>

text \<open>
  Modelled from the spec: the status codes \<^verbatim>\<open>SLURM_SUCCESS\<close> and \<^verbatim>\<open>SLURM_ERROR\<close>,
  declared in a header that is not among the sources (the spec's \<open>ok | error\<close>). The
  file only returns them and compares them for equality, so they are two constructors.
\<close>

datatype status = SLURM_SUCCESS | SLURM_ERROR

text \<open>
  Modelled from the spec: \<^verbatim>\<open>plugin_handle_t\<close> and \<^verbatim>\<open>PLUGIN_INVALID_HANDLE\<close>, declared
  in \<^verbatim>\<open>plugin.h\<close>, which is not among the sources. The handle is an opaque reference
  to a loaded module, and the invalid handle one distinguished value of that type (the
  spec's "not loaded" sentinel): the rack stores it in an entry that is not loaded and
  compares handles with \<^verbatim>\<open>==\<close>.
\<close>

datatype plugin_handle_t = PLUGIN_INVALID_HANDLE | Handle nat

text \<open>
  Modelled from the spec: the four bits of the paranoia policy, declared in
  \<^verbatim>\<open>plugrack.h\<close>, which is not among the sources. The spec names them as the checks
  {file-ownership, file-writability, directory-ownership, directory-writability} of a
  bitmask; they are four distinct bits of the \<^verbatim>\<open>uint8_t\<close> field.
\<close>

definition PLUGRACK_PARANOIA_NONE :: "8 word" where
  "PLUGRACK_PARANOIA_NONE = 0"

definition PLUGRACK_PARANOIA_FILE_OWN :: "8 word" where
  "PLUGRACK_PARANOIA_FILE_OWN = 1"

definition PLUGRACK_PARANOIA_FILE_WRITABLE :: "8 word" where
  "PLUGRACK_PARANOIA_FILE_WRITABLE = 2"

definition PLUGRACK_PARANOIA_DIR_OWN :: "8 word" where
  "PLUGRACK_PARANOIA_DIR_OWN = 4"

definition PLUGRACK_PARANOIA_DIR_WRITABLE :: "8 word" where
  "PLUGRACK_PARANOIA_DIR_WRITABLE = 8"

definition PLUGRACK_UID_NOBODY :: nat where
  "PLUGRACK_UID_NOBODY = 99"

text \<open>
  The bounds of \<^verbatim>\<open>int\<close> (\<^verbatim>\<open>limits.h\<close>, 32 bits). The reference count of an entry
  is an \<^verbatim>\<open>int\<close>; it is an integer here, kept within these bounds. The source
  increments it with no guard: C leaves the overflow undefined, and the compiled code
  wraps around in two's complement, from \<^verbatim>\<open>INT_MAX\<close> to \<^verbatim>\<open>INT_MIN\<close>, which is
  \<open>int_wrap\<close>.
\<close>

definition INT_MAX :: int where
  "INT_MAX = 2147483647"

definition INT_MIN :: int where
  "INT_MIN = - 2147483648"

definition int_wrap :: "int \<Rightarrow> int" where
  "int_wrap x = (x + 2147483648) mod 4294967296 - 2147483648"

text \<open>
  The longest name of a directory entry (\<^verbatim>\<open>limits.h\<close>): \<^verbatim>\<open>plugrack_read_dir\<close> sizes
  its path buffer with it.
\<close>

definition NAME_MAX :: nat where
  "NAME_MAX = 255"

text \<open>The mode bits of \<^verbatim>\<open>sys/stat.h\<close> that the file tests (octal 020, 002, 0170000, 0100000).\<close>

definition S_IWGRP :: "32 word" where
  "S_IWGRP = 16"

definition S_IWOTH :: "32 word" where
  "S_IWOTH = 2"

definition S_IFMT :: "32 word" where
  "S_IFMT = 61440"

definition S_IFREG :: "32 word" where
  "S_IFREG = 32768"

definition S_ISREG :: "32 word \<Rightarrow> bool" where
  "S_ISREG m = (m AND S_IFMT = S_IFREG)"

subsection \<open>The outside world: file system and plugin loader\<close>

record stat_t =
  st_uid :: nat
  st_mode :: "32 word"

text \<open>
  The calls made to the plugin loader (\<^verbatim>\<open>plugin_peek\<close>, \<^verbatim>\<open>plugin_load_from_file\<close>,
  \<^verbatim>\<open>plugin_unload\<close>) are logged in the order they happen.
\<close>

datatype event = Peek string | Load string | Unload plugin_handle_t

text \<open>
  The plugin loader (\<^verbatim>\<open>plugin.c\<close>) is not among the sources, and the file system is
  outside the program: what they answer is a parameter of the model.
  \<open>fs_stat\<close> is \<^verbatim>\<open>stat(2)\<close>, \<open>None\<close> when it returns a negative value.
  \<open>fs_readdir\<close> is \<^verbatim>\<open>opendir\<close> followed by \<^verbatim>\<open>readdir\<close> until it returns
  \<^verbatim>\<open>NULL\<close>: \<open>None\<close> when the directory cannot be opened, otherwise the
  \<^verbatim>\<open>d_name\<close> of every entry in the order read. \<open>peek_type\<close> is the string
  \<^verbatim>\<open>plugin_peek\<close> leaves in the 64-byte type buffer it is given, \<open>None\<close> when it
  returns \<^verbatim>\<open>SLURM_ERROR\<close>. \<open>load_file\<close> is the handle \<^verbatim>\<open>plugin_load_from_file\<close>
  returns; it may depend on the loader calls made before.
\<close>

record world =
  fs_stat :: "string \<Rightarrow> stat_t option"
  fs_readdir :: "string \<Rightarrow> string list option"
  peek_type :: "string \<Rightarrow> string option"
  load_file :: "event list \<Rightarrow> string \<Rightarrow> plugin_handle_t"

text \<open>
  Modelled from the spec: the three calls to the loader, \<^verbatim>\<open>peek_type(path, max_len) ->
  type_string | error\<close>, \<^verbatim>\<open>open(path) -> handle | invalid\<close> and \<^verbatim>\<open>close(handle)\<close>.
  Each returns what the world answers and appends itself to the log.
\<close>

definition plugin_peek :: "world \<Rightarrow> string \<Rightarrow> event list \<Rightarrow> string option \<times> event list" where
  "plugin_peek w fq_path tr = (peek_type w fq_path, tr @ [Peek fq_path])"

definition plugin_load_from_file ::
    "world \<Rightarrow> string \<Rightarrow> event list \<Rightarrow> plugin_handle_t \<times> event list" where
  "plugin_load_from_file w fq_path tr = (load_file w tr fq_path, tr @ [Load fq_path])"

definition plugin_unload :: "plugin_handle_t \<Rightarrow> event list \<Rightarrow> event list" where
  "plugin_unload plug tr = tr @ [Unload plug]"

subsection \<open>C string functions\<close>

text \<open>
  A C string is the list of its characters before the terminating NUL, so the end of the
  list reads as the character 0. \<^verbatim>\<open>strncmp\<close> compares at most \<open>n\<close> characters as
  unsigned bytes and stops at a NUL.
\<close>

fun strncmp :: "string \<Rightarrow> string \<Rightarrow> nat \<Rightarrow> int" where
  "strncmp s1 s2 0 = 0"
| "strncmp [] [] (Suc n) = 0"
| "strncmp [] (c2 # s2) (Suc n) = - int (of_char c2)"
| "strncmp (c1 # s1) [] (Suc n) = int (of_char c1)"
| "strncmp (c1 # s1) (c2 # s2) (Suc n) =
     (if c1 \<noteq> c2 then int (of_char c1) - int (of_char c2)
      else if of_char c1 = (0::nat) then 0
      else strncmp s1 s2 n)"

text \<open>
  \<^verbatim>\<open>strcmp\<close> is the same comparison with no bound on the length: one character
  more than the longer string reaches the terminating NUL of both.
\<close>

definition strcmp :: "string \<Rightarrow> string \<Rightarrow> int" where
  "strcmp s1 s2 = strncmp s1 s2 (Suc (max (length s1) (length s2)))"

definition strlen :: "string \<Rightarrow> nat" where
  "strlen s = length s"

text \<open>\<^verbatim>\<open>strrchr\<close>: the position of the last occurrence of a character, if any.\<close>

fun strrchr :: "string \<Rightarrow> char \<Rightarrow> nat option" where
  "strrchr [] c = None"
| "strrchr (x # xs) c =
     (case strrchr xs c of
        Some i \<Rightarrow> Some (Suc i)
      | None \<Rightarrow> if x = c then Some 0 else None)"

text \<open>A string that can be a C string: no NUL among its characters.\<close>

definition c_string :: "string \<Rightarrow> bool" where
  "c_string s = list_all (\<lambda>c. of_char c \<noteq> (0::nat)) s"

subsection \<open>The rack and its entries\<close>

record plugrack_entry_t =
  full_type :: string
  fq_path :: string
  plug :: plugin_handle_t
  refcount :: int

record plugrack =
  entries :: "plugrack_entry_t list"
  major_type :: "string option"
  uid :: nat
  paranoia :: "8 word"

subsection \<open>The security checks\<close>

text \<open>
  \<^verbatim>\<open>accept_path_paranoia\<close>. The two \<^verbatim>\<open>int\<close> switches are tested for being
  non-zero only, so they are booleans here; the callers pass
  \<^verbatim>\<open>rack->paranoia & FLAG\<close>, which is \<open>paranoia rack AND FLAG \<noteq> 0\<close>.
\<close>

definition accept_path_paranoia :: "world \<Rightarrow> plugrack \<Rightarrow> string \<Rightarrow> bool \<Rightarrow> bool \<Rightarrow> bool" where
  "accept_path_paranoia w rack path check_own check_write =
     (case fs_stat w path of
        None \<Rightarrow> False
      | Some st \<Rightarrow>
          if check_own \<and> st_uid st \<noteq> uid rack then False
          else if check_write \<and> (st_mode st AND S_IWGRP \<noteq> 0 \<or> st_mode st AND S_IWOTH \<noteq> 0)
            then False
          else True)"

definition accept_paranoia :: "world \<Rightarrow> plugrack \<Rightarrow> string \<Rightarrow> bool" where
  "accept_paranoia w rack path =
     (if paranoia rack = 0 then True
      else if \<not> accept_path_paranoia w rack path
                 (paranoia rack AND PLUGRACK_PARANOIA_FILE_OWN \<noteq> 0)
                 (paranoia rack AND PLUGRACK_PARANOIA_FILE_WRITABLE \<noteq> 0)
        then False
      else
        (case strrchr path CHR ''/'' of
           None \<Rightarrow> False
         | Some p \<Rightarrow>
             accept_path_paranoia w rack (if p \<noteq> 0 then take p path else path)
               (paranoia rack AND PLUGRACK_PARANOIA_DIR_OWN \<noteq> 0)
               (paranoia rack AND PLUGRACK_PARANOIA_DIR_WRITABLE \<noteq> 0)))"

subsection \<open>Creating and configuring a rack\<close>

text \<open>
  \<^verbatim>\<open>plugrack_create\<close>; running out of memory in \<^verbatim>\<open>list_create\<close> is outside the model.
\<close>

definition plugrack_create :: plugrack where
  "plugrack_create =
     \<lparr> entries = [], major_type = None, uid = PLUGRACK_UID_NOBODY,
       paranoia = PLUGRACK_PARANOIA_NONE \<rparr>"

definition plugrack_set_major_type ::
    "plugrack option \<Rightarrow> string option \<Rightarrow> status \<times> plugrack option" where
  "plugrack_set_major_type rack type =
     (case rack of
        None \<Rightarrow> (SLURM_ERROR, None)
      | Some r \<Rightarrow>
          (case type of
             None \<Rightarrow> (SLURM_ERROR, Some r)
           | Some t \<Rightarrow> (SLURM_SUCCESS, Some (r\<lparr>major_type := Some t\<rparr>))))"

text \<open>The 32-bit flags are stored in the 8-bit field, which keeps their low byte.\<close>

definition plugrack_set_paranoia ::
    "plugrack option \<Rightarrow> 32 word \<Rightarrow> nat \<Rightarrow> status \<times> plugrack option" where
  "plugrack_set_paranoia rack flags u =
     (case rack of
        None \<Rightarrow> (SLURM_ERROR, None)
      | Some r \<Rightarrow>
          (SLURM_SUCCESS,
           Some (if flags \<noteq> 0 then r\<lparr>paranoia := ucast flags, uid := u\<rparr>
                 else r\<lparr>paranoia := ucast flags\<rparr>)))"

subsection \<open>Discovery\<close>

definition plugrack_add_plugin_path ::
    "plugrack option \<Rightarrow> string \<Rightarrow> string option \<Rightarrow> status \<times> plugrack option" where
  "plugrack_add_plugin_path rack ftype path =
     (case rack of
        None \<Rightarrow> (SLURM_ERROR, None)
      | Some r \<Rightarrow>
          (case path of
             None \<Rightarrow> (SLURM_ERROR, Some r)
           | Some p \<Rightarrow>
               (SLURM_SUCCESS,
                Some (r\<lparr>entries := entries r @
                   [\<lparr> full_type = ftype, fq_path = p,
                      plug = PLUGIN_INVALID_HANDLE, refcount = 0 \<rparr>]\<rparr>))))"

text \<open>
  The test both discovery functions apply to the peeked type:
  \<^verbatim>\<open>rack->major_type && strncmp(rack->major_type, plugin_type, strlen(rack->major_type)) != 0\<close>.
\<close>

definition type_mismatch :: "plugrack \<Rightarrow> string \<Rightarrow> bool" where
  "type_mismatch rack plugin_type =
     (case major_type rack of
        None \<Rightarrow> False
      | Some m \<Rightarrow> strncmp m plugin_type (strlen m) \<noteq> 0)"

definition plugrack_add_plugin_file ::
    "world \<Rightarrow> plugrack option \<Rightarrow> string option \<Rightarrow> event list
      \<Rightarrow> status \<times> plugrack option \<times> event list" where
  "plugrack_add_plugin_file w rack path tr =
     (case rack of
        None \<Rightarrow> (SLURM_ERROR, None, tr)
      | Some r \<Rightarrow>
          (case path of
             None \<Rightarrow> (SLURM_ERROR, Some r, tr)
           | Some p \<Rightarrow>
               if \<not> accept_paranoia w r p then (SLURM_ERROR, Some r, tr)
               else
                 (case plugin_peek w p tr of
                    (None, tr1) \<Rightarrow> (SLURM_ERROR, Some r, tr1)
                  | (Some plugin_type, tr1) \<Rightarrow>
                      if type_mismatch r plugin_type then (SLURM_ERROR, Some r, tr1)
                      else
                        (case plugrack_add_plugin_path (Some r) plugin_type (Some p) of
                           (rc, rack1) \<Rightarrow> (rc, rack1, tr1)))))"

text \<open>
  The body of the \<^verbatim>\<open>while\<close> loop of \<^verbatim>\<open>plugrack_read_dir\<close>, one directory entry
  at a time. The paranoia check inside the loop is called with \<^verbatim>\<open>dir\<close>, as in the
  source. The source composes the path in a buffer of
  \<^verbatim>\<open>strlen(dir) + NAME_MAX + 1\<close> bytes, which holds the directory, the separator, a
  name of up to \<^verbatim>\<open>NAME_MAX - 1\<close> characters and the terminating NUL; the path is a
  list here, and what is proved of a scan is proved for names shorter than
  \<^verbatim>\<open>NAME_MAX\<close>, the names the buffer holds.
\<close>

fun read_dir_loop ::
    "world \<Rightarrow> string \<Rightarrow> string list \<Rightarrow> plugrack \<Rightarrow> event list \<Rightarrow> plugrack \<times> event list" where
  "read_dir_loop w dir [] rack tr = (rack, tr)"
| "read_dir_loop w dir (d_name # rest) rack tr =
     (let path = dir @ ''/'' @ d_name in
      case fs_stat w path of
        None \<Rightarrow> read_dir_loop w dir rest rack tr
      | Some st \<Rightarrow>
          if \<not> S_ISREG (st_mode st) then read_dir_loop w dir rest rack tr
          else if \<not> accept_path_paranoia w rack dir
                     (paranoia rack AND PLUGRACK_PARANOIA_FILE_OWN \<noteq> 0)
                     (paranoia rack AND PLUGRACK_PARANOIA_FILE_WRITABLE \<noteq> 0)
            then read_dir_loop w dir rest rack tr
          else
            (case plugin_peek w path tr of
               (None, tr1) \<Rightarrow> read_dir_loop w dir rest rack tr1
             | (Some plugin_type, tr1) \<Rightarrow>
                 if type_mismatch rack plugin_type then read_dir_loop w dir rest rack tr1
                 else
                   (case snd (plugrack_add_plugin_path (Some rack) plugin_type (Some path)) of
                      None \<Rightarrow> read_dir_loop w dir rest rack tr1
                    | Some rack1 \<Rightarrow> read_dir_loop w dir rest rack1 tr1)))"

definition plugrack_read_dir ::
    "world \<Rightarrow> plugrack option \<Rightarrow> string option \<Rightarrow> event list
      \<Rightarrow> status \<times> plugrack option \<times> event list" where
  "plugrack_read_dir w rack dir tr =
     (case rack of
        None \<Rightarrow> (SLURM_ERROR, None, tr)
      | Some r \<Rightarrow>
          (case dir of
             None \<Rightarrow> (SLURM_ERROR, Some r, tr)
           | Some d \<Rightarrow>
               if \<not> accept_path_paranoia w r d
                      (paranoia r AND PLUGRACK_PARANOIA_DIR_OWN \<noteq> 0)
                      (paranoia r AND PLUGRACK_PARANOIA_DIR_WRITABLE \<noteq> 0)
                 then (SLURM_ERROR, Some r, tr)
               else
                 (case fs_readdir w d of
                    None \<Rightarrow> (SLURM_ERROR, Some r, tr)
                  | Some names \<Rightarrow>
                      (case read_dir_loop w d names r tr of
                         (r1, tr1) \<Rightarrow> (SLURM_SUCCESS, Some r1, tr1)))))"

subsection \<open>Life cycle\<close>

text \<open>The loops over the list of entries, each as a recursion over the list.\<close>

fun purge_idle_loop ::
    "plugrack_entry_t list \<Rightarrow> event list \<Rightarrow> plugrack_entry_t list \<times> event list" where
  "purge_idle_loop [] tr = ([], tr)"
| "purge_idle_loop (e # es) tr =
     (if plug e \<noteq> PLUGIN_INVALID_HANDLE \<and> refcount e = 0 then
        (case purge_idle_loop es (plugin_unload (plug e) tr) of
           (es1, tr1) \<Rightarrow> (e\<lparr>plug := PLUGIN_INVALID_HANDLE\<rparr> # es1, tr1))
      else
        (case purge_idle_loop es tr of (es1, tr1) \<Rightarrow> (e # es1, tr1)))"

definition plugrack_purge_idle ::
    "plugrack option \<Rightarrow> event list \<Rightarrow> status \<times> plugrack option \<times> event list" where
  "plugrack_purge_idle rack tr =
     (case rack of
        None \<Rightarrow> (SLURM_ERROR, None, tr)
      | Some r \<Rightarrow>
          (case purge_idle_loop (entries r) tr of
             (es1, tr1) \<Rightarrow> (SLURM_SUCCESS, Some (r\<lparr>entries := es1\<rparr>), tr1)))"

text \<open>
  \<^verbatim>\<open>plugrack_load_all\<close> calls the loader on the path of every entry that is not
  loaded and casts the handle it returns to \<^verbatim>\<open>void\<close>: no entry is written.
\<close>

fun load_all_loop :: "world \<Rightarrow> plugrack_entry_t list \<Rightarrow> event list \<Rightarrow> event list" where
  "load_all_loop w [] tr = tr"
| "load_all_loop w (e # es) tr =
     (if plug e = PLUGIN_INVALID_HANDLE then
        load_all_loop w es (snd (plugin_load_from_file w (fq_path e) tr))
      else load_all_loop w es tr)"

definition plugrack_load_all ::
    "world \<Rightarrow> plugrack option \<Rightarrow> event list \<Rightarrow> status \<times> plugrack option \<times> event list" where
  "plugrack_load_all w rack tr =
     (case rack of
        None \<Rightarrow> (SLURM_ERROR, None, tr)
      | Some r \<Rightarrow> (SLURM_SUCCESS, Some r, load_all_loop w (entries r) tr))"

text \<open>
  The loop of \<^verbatim>\<open>plugrack_use_by_type\<close>: it stops at the first entry whose type
  compares equal, loads it if it holds the invalid handle, and then increments the
  reference count under the condition the source writes,
  \<^verbatim>\<open>e->plug == PLUGIN_INVALID_HANDLE\<close>. The increment has no guard and wraps around.
\<close>

fun use_by_type_loop ::
    "world \<Rightarrow> string \<Rightarrow> plugrack_entry_t list \<Rightarrow> event list
      \<Rightarrow> plugin_handle_t \<times> plugrack_entry_t list \<times> event list" where
  "use_by_type_loop w ftype [] tr = (PLUGIN_INVALID_HANDLE, [], tr)"
| "use_by_type_loop w ftype (e # es) tr =
     (if strcmp ftype (full_type e) \<noteq> 0 then
        (case use_by_type_loop w ftype es tr of (h, es1, tr1) \<Rightarrow> (h, e # es1, tr1))
      else
        (case (if plug e = PLUGIN_INVALID_HANDLE then
                 (case plugin_load_from_file w (fq_path e) tr of
                    (h, tr1) \<Rightarrow> (e\<lparr>plug := h\<rparr>, tr1))
               else (e, tr)) of
           (e1, tr1) \<Rightarrow>
             (let e2 = (if plug e1 = PLUGIN_INVALID_HANDLE
                        then e1\<lparr>refcount := int_wrap (refcount e1 + 1)\<rparr> else e1)
              in (plug e2, e2 # es, tr1))))"

definition plugrack_use_by_type ::
    "world \<Rightarrow> plugrack option \<Rightarrow> string option \<Rightarrow> event list
      \<Rightarrow> plugin_handle_t \<times> plugrack option \<times> event list" where
  "plugrack_use_by_type w rack ftype tr =
     (case rack of
        None \<Rightarrow> (PLUGIN_INVALID_HANDLE, None, tr)
      | Some r \<Rightarrow>
          (case ftype of
             None \<Rightarrow> (PLUGIN_INVALID_HANDLE, Some r, tr)
           | Some t \<Rightarrow>
               (case use_by_type_loop w t (entries r) tr of
                  (h, es1, tr1) \<Rightarrow> (h, Some (r\<lparr>entries := es1\<rparr>), tr1))))"

text \<open>
  The loop of \<^verbatim>\<open>plugrack_finished_with_plugin\<close>: the first entry whose handle equals
  the argument has its count decremented and reset to 0 when it went below. \<open>None\<close> is
  the decrement of a count that is \<^verbatim>\<open>INT_MIN\<close>.
\<close>

fun finished_loop ::
    "plugin_handle_t \<Rightarrow> plugrack_entry_t list \<Rightarrow> (status \<times> plugrack_entry_t list) option" where
  "finished_loop h [] = Some (SLURM_ERROR, [])"
| "finished_loop h (e # es) =
     (if plug e = h then
        (if refcount e = INT_MIN then None
         else
           (let e1 = e\<lparr>refcount := refcount e - 1\<rparr>;
                e2 = (if refcount e1 < 0 then e1\<lparr>refcount := 0\<rparr> else e1)
            in Some (SLURM_SUCCESS, e2 # es)))
      else
        (case finished_loop h es of
           None \<Rightarrow> None
         | Some (rc, es1) \<Rightarrow> Some (rc, e # es1)))"

definition plugrack_finished_with_plugin ::
    "plugrack option \<Rightarrow> plugin_handle_t \<Rightarrow> (status \<times> plugrack option) option" where
  "plugrack_finished_with_plugin rack h =
     (case rack of
        None \<Rightarrow> Some (SLURM_ERROR, None)
      | Some r \<Rightarrow>
          (case finished_loop h (entries r) of
             None \<Rightarrow> None
           | Some (rc, es1) \<Rightarrow> Some (rc, Some (r\<lparr>entries := es1\<rparr>))))"

subsection \<open>Tearing a rack down\<close>

text \<open>
  \<^verbatim>\<open>plugrack_entry_destructor\<close> asserts that the count is 0 and unloads a loaded
  plugin; \<open>None\<close> is the failed assertion, which ends the process. The list holds no
  null entry, so the test for a null victim has no branch here.
\<close>

definition plugrack_entry_destructor :: "plugrack_entry_t \<Rightarrow> event list \<Rightarrow> event list option" where
  "plugrack_entry_destructor victim tr =
     (if refcount victim \<noteq> 0 then None
      else if plug victim \<noteq> PLUGIN_INVALID_HANDLE then Some (plugin_unload (plug victim) tr)
      else Some tr)"

fun list_destroy :: "plugrack_entry_t list \<Rightarrow> event list \<Rightarrow> event list option" where
  "list_destroy [] tr = Some tr"
| "list_destroy (e # es) tr =
     (case plugrack_entry_destructor e tr of
        None \<Rightarrow> None
      | Some tr1 \<Rightarrow> list_destroy es tr1)"

fun still_in_use :: "plugrack_entry_t list \<Rightarrow> bool" where
  "still_in_use [] = False"
| "still_in_use (e # es) = (if refcount e > 0 then True else still_in_use es)"

text \<open>
  \<^verbatim>\<open>plugrack_destroy\<close>: after a successful call the rack is freed, which is the rack
  \<open>None\<close>.
\<close>

definition plugrack_destroy ::
    "plugrack option \<Rightarrow> event list \<Rightarrow> (status \<times> plugrack option \<times> event list) option" where
  "plugrack_destroy rack tr =
     (case rack of
        None \<Rightarrow> Some (SLURM_ERROR, None, tr)
      | Some r \<Rightarrow>
          if still_in_use (entries r) then Some (SLURM_ERROR, Some r, tr)
          else
            (case list_destroy (entries r) tr of
               None \<Rightarrow> None
             | Some tr1 \<Rightarrow> Some (SLURM_SUCCESS, None, tr1)))"

subsection \<open>Sequences of public calls\<close>

datatype call =
    Set_major_type "string option"
  | Set_paranoia "32 word" nat
  | Add_plugin_file "string option"
  | Read_dir "string option"
  | Purge_idle
  | Load_all
  | Use_by_type "string option"
  | Finished_with_plugin plugin_handle_t
  | Destroy

text \<open>
  One public call on the rack a client holds, keeping the rack and the loader log and
  dropping the value returned. \<open>None\<close> is a call that does not return: the process
  ended by a failed assertion, or a count decremented below \<^verbatim>\<open>INT_MIN\<close>.
\<close>

fun step :: "world \<Rightarrow> call \<Rightarrow> plugrack option \<times> event list \<Rightarrow> (plugrack option \<times> event list) option" where
  "step w (Set_major_type t) (rack, tr) = Some (snd (plugrack_set_major_type rack t), tr)"
| "step w (Set_paranoia flags u) (rack, tr) = Some (snd (plugrack_set_paranoia rack flags u), tr)"
| "step w (Add_plugin_file p) (rack, tr) = Some (snd (plugrack_add_plugin_file w rack p tr))"
| "step w (Read_dir d) (rack, tr) = Some (snd (plugrack_read_dir w rack d tr))"
| "step w Purge_idle (rack, tr) = Some (snd (plugrack_purge_idle rack tr))"
| "step w Load_all (rack, tr) = Some (snd (plugrack_load_all w rack tr))"
| "step w (Use_by_type t) (rack, tr) = Some (snd (plugrack_use_by_type w rack t tr))"
| "step w (Finished_with_plugin h) (rack, tr) =
     (case plugrack_finished_with_plugin rack h of
        None \<Rightarrow> None
      | Some (rc, rack1) \<Rightarrow> Some (rack1, tr))"
| "step w Destroy (rack, tr) =
     (case plugrack_destroy rack tr of
        None \<Rightarrow> None
      | Some (rc, rack1, tr1) \<Rightarrow> Some (rack1, tr1))"


text \<open>
  A sequence of public calls, each in the world it finds: the file system and the loader
  may answer differently from one call to the next.
\<close>

fun run ::
    "(world \<times> call) list \<Rightarrow> plugrack option \<times> event list
      \<Rightarrow> (plugrack option \<times> event list) option" where
  "run [] s = Some s"
| "run ((w, c) # cs) s = (case step w c s of None \<Rightarrow> None | Some s1 \<Rightarrow> run cs s1)"


subsection \<open>The per-node decision as the specification words it\<close>

text \<open>
  The specification's reference definition of the per-node decision, in its order: accept
  when both switches are off, then reject a node that cannot be statted, then the owner
  and the writability checks. It is compared below with \<open>accept_path_paranoia\<close>.
\<close>

definition spec_node_decision :: "world \<Rightarrow> plugrack \<Rightarrow> string \<Rightarrow> bool \<Rightarrow> bool \<Rightarrow> bool" where
  "spec_node_decision w rack path check_own check_write =
     (if \<not> check_own \<and> \<not> check_write then True
      else
        (case fs_stat w path of
           None \<Rightarrow> False
         | Some st \<Rightarrow>
             if check_own \<and> st_uid st \<noteq> uid rack then False
             else if check_write \<and> (st_mode st AND S_IWGRP \<noteq> 0 \<or> st_mode st AND S_IWOTH \<noteq> 0)
               then False
             else True))"

subsection \<open>Concrete inputs\<close>

text \<open>
  A directory \<^verbatim>\<open>/d\<close> owned by user 500 with mode 0755, holding the regular file
  \<^verbatim>\<open>a.so\<close> (owner 500, mode 0644), the directory \<^verbatim>\<open>sub\<close> and the regular file
  \<^verbatim>\<open>evil.so\<close> (owner 501, mode 0666). The loader hands out a fresh handle at every
  call.
\<close>

definition demo_stat :: "string \<Rightarrow> stat_t option" where
  "demo_stat p =
     (if p = ''/d'' then Some \<lparr> st_uid = 500, st_mode = 16877 \<rparr>
      else if p = ''/d/a.so'' then Some \<lparr> st_uid = 500, st_mode = 33188 \<rparr>
      else if p = ''/d/sub'' then Some \<lparr> st_uid = 500, st_mode = 16877 \<rparr>
      else if p = ''/d/evil.so'' then Some \<lparr> st_uid = 501, st_mode = 33206 \<rparr>
      else None)"

definition demo_readdir :: "string \<Rightarrow> string list option" where
  "demo_readdir d = (if d = ''/d'' then Some [''a.so'', ''sub'', ''evil.so''] else None)"

definition demo_peek :: "string \<Rightarrow> string option" where
  "demo_peek p =
     (if p = ''/d/a.so'' then Some ''auth/x''
      else if p = ''/d/evil.so'' then Some ''authxyz''
      else None)"

definition demo_load :: "event list \<Rightarrow> string \<Rightarrow> plugin_handle_t" where
  "demo_load tr p = Handle (Suc (length tr))"

definition demo_world :: world where
  "demo_world =
     \<lparr> fs_stat = demo_stat, fs_readdir = demo_readdir, peek_type = demo_peek,
       load_file = demo_load \<rparr>"

text \<open>The same world with a loader that fails on every file.\<close>

definition no_load :: "event list \<Rightarrow> string \<Rightarrow> plugin_handle_t" where
  "no_load tr p = PLUGIN_INVALID_HANDLE"

definition failing_world :: world where
  "failing_world =
     \<lparr> fs_stat = demo_stat, fs_readdir = demo_readdir, peek_type = demo_peek,
       load_file = no_load \<rparr>"

text \<open>An empty rack whose policy checks owner and writability of files for user 500.\<close>

definition strict_rack :: plugrack where
  "strict_rack =
     \<lparr> entries = [], major_type = None, uid = 500,
       paranoia = PLUGRACK_PARANOIA_FILE_OWN OR PLUGRACK_PARANOIA_FILE_WRITABLE \<rparr>"

text \<open>An empty rack with all four checks for user 500 and the major type \<^verbatim>\<open>auth\<close>.\<close>

definition auth_rack :: plugrack where
  "auth_rack =
     \<lparr> entries = [], major_type = Some ''auth'', uid = 500, paranoia = 15 \<rparr>"

text \<open>Entries in the three states the rack distinguishes, and one with a count but no plugin.\<close>

definition e_unloaded :: plugrack_entry_t where
  "e_unloaded =
     \<lparr> full_type = ''auth/x'', fq_path = ''/d/a.so'',
       plug = PLUGIN_INVALID_HANDLE, refcount = 0 \<rparr>"

definition e_busy :: plugrack_entry_t where
  "e_busy =
     \<lparr> full_type = ''auth/x'', fq_path = ''/d/a.so'', plug = Handle 7, refcount = 2 \<rparr>"

definition e_idle :: plugrack_entry_t where
  "e_idle =
     \<lparr> full_type = ''auth/y'', fq_path = ''/d/b.so'', plug = Handle 8, refcount = 0 \<rparr>"

definition e_counted :: plugrack_entry_t where
  "e_counted =
     \<lparr> full_type = ''auth/z'', fq_path = ''/d/c.so'',
       plug = PLUGIN_INVALID_HANDLE, refcount = 1 \<rparr>"

definition rack_of :: "plugrack_entry_t list \<Rightarrow> plugrack" where
  "rack_of es = \<lparr> entries = es, major_type = None, uid = 99, paranoia = 0 \<rparr>"

section \<open>Lemmas about the model\<close>

subsection \<open>Unfolding the concrete inputs and the operations\<close>

lemmas ex_defs = demo_world_def failing_world_def demo_stat_def demo_readdir_def demo_peek_def
  demo_load_def no_load_def strict_rack_def auth_rack_def e_unloaded_def e_busy_def e_idle_def
  e_counted_def rack_of_def plugrack_create_def
  PLUGRACK_PARANOIA_NONE_def PLUGRACK_PARANOIA_FILE_OWN_def PLUGRACK_PARANOIA_FILE_WRITABLE_def
  PLUGRACK_PARANOIA_DIR_OWN_def PLUGRACK_PARANOIA_DIR_WRITABLE_def PLUGRACK_UID_NOBODY_def
  S_IWGRP_def S_IWOTH_def S_IFMT_def S_IFREG_def S_ISREG_def INT_MAX_def INT_MIN_def
  NAME_MAX_def

lemmas op_defs = plugrack_add_plugin_file_def plugrack_read_dir_def plugrack_use_by_type_def
  plugrack_load_all_def plugrack_purge_idle_def plugrack_finished_with_plugin_def plugrack_destroy_def
  plugrack_add_plugin_path_def plugin_peek_def plugin_load_from_file_def plugin_unload_def
  accept_paranoia_def accept_path_paranoia_def type_mismatch_def strcmp_def strlen_def
  plugrack_set_major_type_def plugrack_set_paranoia_def

subsection \<open>C strings\<close>

lemma strrchr_None_iff: "strrchr s c = None \<longleftrightarrow> c \<notin> set s"
  by (induction s) (auto split: option.splits)

lemma strrchr_last: "c \<notin> set f \<Longrightarrow> strrchr (d @ c # f) c = Some (length d)"
  by (induction d) (auto simp: strrchr_None_iff[THEN iffD2] split: option.splits)

lemma strncmp_prefix_iff:
  "c_string m \<Longrightarrow> strncmp m t (length m) = 0 \<longleftrightarrow> prefix m t"
proof (induction m arbitrary: t)
  case Nil
  then show ?case by simp
next
  case (Cons c m)
  from Cons.prems have c: "of_char c \<noteq> (0::nat)" and m: "c_string m"
    by (simp_all add: c_string_def)
  show ?case
  proof (cases t)
    case Nil
    with c show ?thesis by simp
  next
    case t: (Cons c2 t2)
    show ?thesis
    proof (cases "c = c2")
      case True
      with c t Cons.IH [OF m, of t2] show ?thesis by simp
    next
      case False
      then have "int (of_char c) \<noteq> int (of_char c2)" by simp
      with False t show ?thesis by simp
    qed
  qed
qed

lemma type_mismatch_iff:
  assumes "\<forall>m. major_type r = Some m \<longrightarrow> c_string m"
  shows "type_mismatch r t \<longleftrightarrow> \<not> (major_type r = None \<or> (\<exists>m. major_type r = Some m \<and> prefix m t))"
proof (cases "major_type r")
  case None
  then show ?thesis by (simp add: type_mismatch_def)
next
  case (Some m)
  with assms have "c_string m" by simp
  from strncmp_prefix_iff [OF this, of t] Some show ?thesis
    by (simp add: type_mismatch_def strlen_def)
qed

subsection \<open>The security checks\<close>

lemma accept_path_paranoia_iff:
  "accept_path_paranoia w rack path own wr \<longleftrightarrow>
     (\<exists>st. fs_stat w path = Some st \<and> (own \<longrightarrow> st_uid st = uid rack) \<and>
        (wr \<longrightarrow> st_mode st AND S_IWGRP = 0 \<and> st_mode st AND S_IWOTH = 0))"
  by (cases "fs_stat w path") (auto simp: accept_path_paranoia_def)

lemma accept_path_paranoia_spec:
  "own \<or> wr \<or> fs_stat w path \<noteq> None \<Longrightarrow>
   accept_path_paranoia w rack path own wr = spec_node_decision w rack path own wr"
  by (cases "fs_stat w path") (auto simp: accept_path_paranoia_def spec_node_decision_def)

lemma accept_paranoia_no_separator:
  "paranoia rack \<noteq> 0 \<Longrightarrow> CHR ''/'' \<notin> set path \<Longrightarrow> \<not> accept_paranoia w rack path"
  by (simp add: accept_paranoia_def strrchr_None_iff [THEN iffD2])

lemma accept_paranoia_split:
  assumes "paranoia rack \<noteq> 0" and "d \<noteq> []" and "CHR ''/'' \<notin> set f"
  shows "accept_paranoia w rack (d @ ''/'' @ f) =
          (accept_path_paranoia w rack (d @ ''/'' @ f)
             (paranoia rack AND PLUGRACK_PARANOIA_FILE_OWN \<noteq> 0)
             (paranoia rack AND PLUGRACK_PARANOIA_FILE_WRITABLE \<noteq> 0) \<and>
           accept_path_paranoia w rack d
             (paranoia rack AND PLUGRACK_PARANOIA_DIR_OWN \<noteq> 0)
             (paranoia rack AND PLUGRACK_PARANOIA_DIR_WRITABLE \<noteq> 0))"
proof -
  from assms(3) have "strrchr (d @ CHR ''/'' # f) CHR ''/'' = Some (length d)"
    by (rule strrchr_last)
  with assms(1,2) show ?thesis by (auto simp: accept_paranoia_def)
qed

text \<open>
  A path whose only separator is its first character is not trimmed: the directory
  switches are applied to the path itself.
\<close>

lemma accept_paranoia_root:
  assumes "paranoia rack \<noteq> 0" and "CHR ''/'' \<notin> set f"
  shows "accept_paranoia w rack (''/'' @ f) =
          (accept_path_paranoia w rack (''/'' @ f)
             (paranoia rack AND PLUGRACK_PARANOIA_FILE_OWN \<noteq> 0)
             (paranoia rack AND PLUGRACK_PARANOIA_FILE_WRITABLE \<noteq> 0) \<and>
           accept_path_paranoia w rack (''/'' @ f)
             (paranoia rack AND PLUGRACK_PARANOIA_DIR_OWN \<noteq> 0)
             (paranoia rack AND PLUGRACK_PARANOIA_DIR_WRITABLE \<noteq> 0))"
proof -
  from assms(2) have "strrchr ([] @ CHR ''/'' # f) CHR ''/'' = Some (length ([] :: string))"
    by (rule strrchr_last)
  with assms(1) show ?thesis by (auto simp: accept_paranoia_def)
qed

subsection \<open>Discovery\<close>

lemma accept_path_paranoia_entries [simp]:
  "accept_path_paranoia w (r\<lparr>entries := es\<rparr>) p a b = accept_path_paranoia w r p a b"
  by (simp add: accept_path_paranoia_def split: option.splits)

lemma type_mismatch_entries [simp]:
  "type_mismatch (r\<lparr>entries := es\<rparr>) t = type_mismatch r t"
  by (simp add: type_mismatch_def split: option.splits)

lemma add_plugin_path_Some [simp]:
  "plugrack_add_plugin_path (Some r) t (Some p) =
     (SLURM_SUCCESS,
      Some (r\<lparr>entries := entries r @
        [\<lparr> full_type = t, fq_path = p, plug = PLUGIN_INVALID_HANDLE, refcount = 0 \<rparr>]\<rparr>))"
  by (simp add: plugrack_add_plugin_path_def)




lemma add_plugin_file_rejected:
  "\<not> accept_paranoia w r p \<Longrightarrow>
   plugrack_add_plugin_file w (Some r) (Some p) tr = (SLURM_ERROR, Some r, tr)"
  by (simp add: plugrack_add_plugin_file_def)

lemma add_plugin_file_peeked:
  assumes "accept_paranoia w r p" and "peek_type w p = Some t"
  shows "plugrack_add_plugin_file w (Some r) (Some p) tr =
         (if type_mismatch r t then (SLURM_ERROR, Some r, tr @ [Peek p])
          else (SLURM_SUCCESS,
                Some (r\<lparr>entries := entries r @
                  [\<lparr> full_type = t, fq_path = p, plug = PLUGIN_INVALID_HANDLE, refcount = 0 \<rparr>]\<rparr>),
                tr @ [Peek p]))"
  using assms by (simp add: plugrack_add_plugin_file_def plugin_peek_def)

lemma read_dir_loop_peeked:
  assumes "fs_stat w (d @ ''/'' @ n) = Some st" and "S_ISREG (st_mode st)"
    and "accept_path_paranoia w r d
       (paranoia r AND PLUGRACK_PARANOIA_FILE_OWN \<noteq> 0)
       (paranoia r AND PLUGRACK_PARANOIA_FILE_WRITABLE \<noteq> 0)"
    and "peek_type w (d @ ''/'' @ n) = Some t"
  shows "read_dir_loop w d (n # rest) r tr =
         read_dir_loop w d rest
           (if type_mismatch r t then r
            else r\<lparr>entries := entries r @
                  [\<lparr> full_type = t, fq_path = d @ ''/'' @ n,
                     plug = PLUGIN_INVALID_HANDLE, refcount = 0 \<rparr>]\<rparr>)
           (tr @ [Peek (d @ ''/'' @ n)])"
  using assms by (simp add: plugin_peek_def Let_def)

lemma read_dir_opened:
  assumes "accept_path_paranoia w r d
       (paranoia r AND PLUGRACK_PARANOIA_DIR_OWN \<noteq> 0)
       (paranoia r AND PLUGRACK_PARANOIA_DIR_WRITABLE \<noteq> 0)"
    and "fs_readdir w d = Some names"
  shows "plugrack_read_dir w (Some r) (Some d) tr =
         (SLURM_SUCCESS, Some (fst (read_dir_loop w d names r tr)),
          snd (read_dir_loop w d names r tr))"
  using assms by (simp add: plugrack_read_dir_def split: prod.splits)

subsection \<open>The loops over the entries\<close>

lemma still_in_use_iff: "still_in_use es = (\<exists>e \<in> set es. refcount e > 0)"
  by (induction es) auto

lemma purge_idle_loop_eq:
  "purge_idle_loop es tr =
     (map (\<lambda>e. if plug e \<noteq> PLUGIN_INVALID_HANDLE \<and> refcount e = 0
                then e\<lparr>plug := PLUGIN_INVALID_HANDLE\<rparr> else e) es,
      tr @ map (\<lambda>e. Unload (plug e))
             (filter (\<lambda>e. plug e \<noteq> PLUGIN_INVALID_HANDLE \<and> refcount e = 0) es))"
  by (induction es arbitrary: tr) (auto simp: plugin_unload_def)



lemma finished_loop_none:
  "\<forall>x \<in> set es. plug x \<noteq> h \<Longrightarrow> finished_loop h es = Some (SLURM_ERROR, es)"
  by (induction es) auto





text \<open>
  What the loop of \<open>plugrack_use_by_type\<close> does at the first entry of the type asked
  for: the count moves only when the entry is not loaded and the load fails.
\<close>

lemma use_by_type_loop_first:
  assumes "\<forall>x \<in> set pre. strcmp t (full_type x) \<noteq> 0" and "strcmp t (full_type e) = 0"
  shows "use_by_type_loop w t (pre @ e # post) tr =
     (if plug e \<noteq> PLUGIN_INVALID_HANDLE then (plug e, pre @ e # post, tr)
      else if load_file w tr (fq_path e) \<noteq> PLUGIN_INVALID_HANDLE then
        (load_file w tr (fq_path e),
         pre @ e\<lparr>plug := load_file w tr (fq_path e)\<rparr> # post, tr @ [Load (fq_path e)])
      else
        (PLUGIN_INVALID_HANDLE,
         pre @ e\<lparr>refcount := int_wrap (refcount e + 1)\<rparr> # post, tr @ [Load (fq_path e)]))"
  using assms by (induction pre) (auto simp: plugin_load_from_file_def Let_def)


subsection \<open>Sequences of calls\<close>










subsection \<open>What a scan adds\<close>

text \<open>
  What a scan adds: the loop appends, in the order read, an entry for every name that is
  a regular file, passes the check the loop makes and peeks as a type that is not
  rejected; it peeks every name that got as far as the peek.
\<close>

lemma read_dir_loop_scan:
  "read_dir_loop w d names r tr =
     (r\<lparr>entries := entries r @
        List.map_filter
          (\<lambda>n. case fs_stat w (d @ ''/'' @ n) of
                 None \<Rightarrow> None
               | Some st \<Rightarrow>
                   if S_ISREG (st_mode st) \<and>
                      accept_path_paranoia w r d
                        (paranoia r AND PLUGRACK_PARANOIA_FILE_OWN \<noteq> 0)
                        (paranoia r AND PLUGRACK_PARANOIA_FILE_WRITABLE \<noteq> 0)
                   then
                     (case peek_type w (d @ ''/'' @ n) of
                        None \<Rightarrow> None
                      | Some t \<Rightarrow>
                          if type_mismatch r t then None
                          else Some \<lparr> full_type = t, fq_path = d @ ''/'' @ n,
                                      plug = PLUGIN_INVALID_HANDLE, refcount = 0 \<rparr>)
                   else None)
          names\<rparr>,
      tr @ map (\<lambda>n. Peek (d @ ''/'' @ n))
             (filter
                (\<lambda>n. case fs_stat w (d @ ''/'' @ n) of
                       None \<Rightarrow> False
                     | Some st \<Rightarrow>
                         S_ISREG (st_mode st) \<and>
                         accept_path_paranoia w r d
                           (paranoia r AND PLUGRACK_PARANOIA_FILE_OWN \<noteq> 0)
                           (paranoia r AND PLUGRACK_PARANOIA_FILE_WRITABLE \<noteq> 0))
                names))"
proof -
  define f where "f = (\<lambda>r n.
    case fs_stat w (d @ ''/'' @ n) of
       None \<Rightarrow> None
     | Some st \<Rightarrow>
         if S_ISREG (st_mode st) \<and>
            accept_path_paranoia w r d
              (paranoia r AND PLUGRACK_PARANOIA_FILE_OWN \<noteq> 0)
              (paranoia r AND PLUGRACK_PARANOIA_FILE_WRITABLE \<noteq> 0)
         then
           (case peek_type w (d @ ''/'' @ n) of
              None \<Rightarrow> None
            | Some t \<Rightarrow>
                if type_mismatch r t then None
                else Some \<lparr> full_type = t, fq_path = d @ ''/'' @ n,
                            plug = PLUGIN_INVALID_HANDLE, refcount = 0 \<rparr>)
         else None)"
  define g where "g = (\<lambda>r n.
    case fs_stat w (d @ ''/'' @ n) of
       None \<Rightarrow> False
     | Some st \<Rightarrow>
         S_ISREG (st_mode st) \<and>
         accept_path_paranoia w r d
           (paranoia r AND PLUGRACK_PARANOIA_FILE_OWN \<noteq> 0)
           (paranoia r AND PLUGRACK_PARANOIA_FILE_WRITABLE \<noteq> 0))"
  have fe: "f (r\<lparr>entries := es\<rparr>) = f r" for r es
    by (auto simp: f_def fun_eq_iff split: option.splits)
  have ge: "g (r\<lparr>entries := es\<rparr>) = g r" for r es
    by (auto simp: g_def fun_eq_iff split: option.splits)
  have main: "read_dir_loop w d names r tr =
      (r\<lparr>entries := entries r @ List.map_filter (f r) names\<rparr>,
       tr @ map (\<lambda>n. Peek (d @ ''/'' @ n)) (filter (g r) names))" for names r tr
  proof (induction names arbitrary: r tr)
    case Nil
    then show ?case by simp
  next
    case (Cons n names)
    show ?case
    proof (cases "f r n")
      case None
      show ?thesis
      proof (cases "g r n")
        case False
        with None Cons.IH [of r tr] show ?thesis
          by (auto simp: f_def g_def Let_def split: option.splits if_splits)
      next
        case True
        with None Cons.IH [of r "tr @ [Peek (d @ ''/'' @ n)]"] show ?thesis
          by (auto simp: f_def g_def Let_def plugin_peek_def split: option.splits if_splits)
      qed
    next
      case (Some e)
      then have g: "g r n" and e: "e = \<lparr> full_type = full_type e, fq_path = d @ ''/'' @ n,
          plug = PLUGIN_INVALID_HANDLE, refcount = 0 \<rparr>"
        and pk: "peek_type w (d @ ''/'' @ n) = Some (full_type e)"
        and tm: "\<not> type_mismatch r (full_type e)"
        by (auto simp: f_def g_def split: option.splits if_splits)
      from g obtain st where st: "fs_stat w (d @ ''/'' @ n) = Some st" "S_ISREG (st_mode st)"
        "accept_path_paranoia w r d
           (paranoia r AND PLUGRACK_PARANOIA_FILE_OWN \<noteq> 0)
           (paranoia r AND PLUGRACK_PARANOIA_FILE_WRITABLE \<noteq> 0)"
        by (auto simp: g_def split: option.splits)
      have "read_dir_loop w d (n # names) r tr =
          read_dir_loop w d names (r\<lparr>entries := entries r @ [e]\<rparr>) (tr @ [Peek (d @ ''/'' @ n)])"
        using st pk tm e by (simp add: plugin_peek_def Let_def)
      also have "\<dots> =
          (r\<lparr>entries := entries r @ e # List.map_filter (f r) names\<rparr>,
           tr @ Peek (d @ ''/'' @ n) # map (\<lambda>n. Peek (d @ ''/'' @ n)) (filter (g r) names))"
        by (simp add: Cons.IH fe ge)
      finally show ?thesis using Some g by simp
    qed
  qed
  show ?thesis using main [of names r tr] unfolding f_def g_def .
qed

subsection \<open>Acquisitions that fail\<close>




section \<open>Properties of the rack\<close>

subsection \<open>Validation before the peek\<close>

text \<open>
  The file \<^verbatim>\<open>/d/evil.so\<close> fails the file-level switches of the policy of
  \<open>strict_rack\<close>; its directory passes them.
\<close>

lemma evil_file_fails_file_switches:
  "\<not> accept_path_paranoia demo_world strict_rack ''/d/evil.so''
       (paranoia strict_rack AND PLUGRACK_PARANOIA_FILE_OWN \<noteq> 0)
       (paranoia strict_rack AND PLUGRACK_PARANOIA_FILE_WRITABLE \<noteq> 0) \<and>
   accept_path_paranoia demo_world strict_rack ''/d''
       (paranoia strict_rack AND PLUGRACK_PARANOIA_FILE_OWN \<noteq> 0)
       (paranoia strict_rack AND PLUGRACK_PARANOIA_FILE_WRITABLE \<noteq> 0)"
  by (simp add: ex_defs accept_path_paranoia_def)

text \<open>
  C1. The specification asks that no file failing the security policy is peeked: in
  \<open>plugrack_add_plugin_file\<close> after \<open>accept_paranoia\<close> has passed, and in
  \<open>plugrack_read_dir\<close> after the file-level switches have been checked on the file
  itself. The theorem runs both on the file \<^verbatim>\<open>/d/evil.so\<close>, owned by user 501 and
  writable by everybody, under a policy that checks owner and writability of files for
  user 500: the file fails \<open>accept_paranoia\<close> and \<open>plugrack_add_plugin_file\<close> returns
  \<open>SLURM_ERROR\<close> without a peek, but \<open>plugrack_read_dir\<close> on \<^verbatim>\<open>/d\<close>, whose loop
  checks the file-level switches on the directory, peeks the file and registers it.
\<close>

theorem read_dir_peeks_unchecked_file:
  "\<not> accept_paranoia demo_world strict_rack ''/d/evil.so'' \<and>
   plugrack_add_plugin_file demo_world (Some strict_rack) (Some ''/d/evil.so'') [] =
     (SLURM_ERROR, Some strict_rack, []) \<and>
   plugrack_read_dir demo_world (Some strict_rack) (Some ''/d'') [] =
     (SLURM_SUCCESS,
      Some (strict_rack\<lparr>entries :=
        [e_unloaded,
         \<lparr> full_type = ''authxyz'', fq_path = ''/d/evil.so'',
           plug = PLUGIN_INVALID_HANDLE, refcount = 0 \<rparr>]\<rparr>),
      [Peek ''/d/a.so'', Peek ''/d/evil.so''])"
proof (intro conjI)
  show "\<not> accept_paranoia demo_world strict_rack ''/d/evil.so''"
    by (simp add: ex_defs accept_paranoia_def accept_path_paranoia_def)
  then show "plugrack_add_plugin_file demo_world (Some strict_rack) (Some ''/d/evil.so'') [] =
     (SLURM_ERROR, Some strict_rack, [])"
    by (simp add: plugrack_add_plugin_file_def)
  show "plugrack_read_dir demo_world (Some strict_rack) (Some ''/d'') [] =
     (SLURM_SUCCESS,
      Some (strict_rack\<lparr>entries :=
        [e_unloaded,
         \<lparr> full_type = ''authxyz'', fq_path = ''/d/evil.so'',
           plug = PLUGIN_INVALID_HANDLE, refcount = 0 \<rparr>]\<rparr>),
      [Peek ''/d/a.so'', Peek ''/d/evil.so''])"
    by (simp add: ex_defs op_defs Let_def)
qed

subsection \<open>Acquiring a plugin\<close>

text \<open>
  C2. The specification asks that \<open>plugrack_use_by_type\<close> adds one to the count of the first
  matching entry when it returns a loaded handle and leaves the count alone when the load
  fails. The theorem runs it on a rack with one matching entry: not loaded with a loader
  that succeeds, the handle is returned and stored and the count stays 0; already loaded
  with count 2, the handle is returned and the count stays 2; not loaded with a loader
  that fails, the invalid handle is returned and the count goes from 0 to 1.
\<close>

theorem use_by_type_count_inverted:
  "plugrack_use_by_type demo_world (Some (rack_of [e_unloaded])) (Some ''auth/x'') [] =
     (Handle 1, Some (rack_of [e_unloaded\<lparr>plug := Handle 1\<rparr>]), [Load ''/d/a.so'']) \<and>
   plugrack_use_by_type demo_world (Some (rack_of [e_busy])) (Some ''auth/x'') [] =
     (Handle 7, Some (rack_of [e_busy]), []) \<and>
   plugrack_use_by_type failing_world (Some (rack_of [e_unloaded])) (Some ''auth/x'') [] =
     (PLUGIN_INVALID_HANDLE, Some (rack_of [e_unloaded\<lparr>refcount := 1\<rparr>]),
       [Load ''/d/a.so''])"
  by (simp add: ex_defs op_defs int_wrap_def)

text \<open>
  C3. The specification asks that in every rack reached by public calls an entry with a
  positive count is loaded. The theorem runs two calls on a new rack with a loader that fails:
  registering \<^verbatim>\<open>/d/a.so\<close> and acquiring its type leave an entry with count 1 and the
  invalid handle.
\<close>

theorem failed_load_counts_without_plugin:
  "run [(failing_world, Add_plugin_file (Some ''/d/a.so'')),
        (failing_world, Use_by_type (Some ''auth/x''))]
     (Some plugrack_create, []) =
     Some (Some (rack_of [e_unloaded\<lparr>refcount := 1\<rparr>]), [Peek ''/d/a.so'', Load ''/d/a.so'']) \<and>
   0 < refcount (e_unloaded\<lparr>refcount := 1\<rparr>) \<and>
   plug (e_unloaded\<lparr>refcount := 1\<rparr>) = PLUGIN_INVALID_HANDLE"
  by (simp add: ex_defs op_defs int_wrap_def)

subsection \<open>Tearing down a rack that is in use\<close>

text \<open>
  C4. When some entry of the rack has a positive reference count, \<open>plugrack_destroy\<close>
  returns \<open>SLURM_ERROR\<close> and changes nothing: the rack it leaves is the rack it was
  given, with every entry, handle and count, and no call to the loader is added to the
  log, so nothing is unloaded.
\<close>

theorem destroy_in_use_unchanged:
  assumes "\<exists>e \<in> set (entries r). refcount e > 0"
  shows "plugrack_destroy (Some r) tr = Some (SLURM_ERROR, Some r, tr)"
  using assms by (simp add: plugrack_destroy_def still_in_use_iff)

theorem destroy_in_use_unchanged_witness:
  "(\<exists>e \<in> set (entries (rack_of [e_idle, e_busy])). refcount e > 0) \<and>
   plugrack_destroy (Some (rack_of [e_idle, e_busy])) [Load ''/d/a.so''] =
     Some (SLURM_ERROR, Some (rack_of [e_idle, e_busy]), [Load ''/d/a.so''])"
proof -
  have h: "\<exists>e \<in> set (entries (rack_of [e_idle, e_busy])). refcount e > 0"
    by (simp add: rack_of_def e_busy_def)
  show ?thesis
    using h destroy_in_use_unchanged [OF h, of "[Load ''/d/a.so'']"] by simp
qed

subsection \<open>The reference count is never negative\<close>




subsection \<open>Unloading idle plugins\<close>

text \<open>
  C6. \<open>plugrack_purge_idle\<close> succeeds and unloads exactly the entries that are
  loaded with a count of 0: each of them keeps its place with the invalid handle in
  \<open>plug\<close> and nothing else changed, every other entry, in particular every entry with a
  positive count, is left as it was, and the calls added to the loader log are the
  \<open>plugin_unload\<close> of the handles of those entries, in list order, and no other.
\<close>

theorem purge_idle_exact:
  assumes "plugrack_purge_idle (Some r) tr = (rc, rack1, tr1)"
  shows "rc = SLURM_SUCCESS \<and>
         (\<exists>es1. rack1 = Some (r\<lparr>entries := es1\<rparr>) \<and> length es1 = length (entries r) \<and>
            (\<forall>i < length (entries r).
               es1 ! i =
                 (if plug (entries r ! i) \<noteq> PLUGIN_INVALID_HANDLE \<and> refcount (entries r ! i) = 0
                  then (entries r ! i)\<lparr>plug := PLUGIN_INVALID_HANDLE\<rparr>
                  else entries r ! i)) \<and>
            (\<forall>i < length (entries r). 0 < refcount (entries r ! i) \<longrightarrow> es1 ! i = entries r ! i)) \<and>
         tr1 = tr @ map (\<lambda>e. Unload (plug e))
                 (filter (\<lambda>e. plug e \<noteq> PLUGIN_INVALID_HANDLE \<and> refcount e = 0) (entries r))"
  using assms by (auto simp: plugrack_purge_idle_def purge_idle_loop_eq)

theorem purge_idle_exact_witness:
  "plugrack_purge_idle (Some (rack_of [e_busy, e_idle, e_unloaded])) [] =
     (SLURM_SUCCESS, Some (rack_of [e_busy, e_idle\<lparr>plug := PLUGIN_INVALID_HANDLE\<rparr>, e_unloaded]),
      [Unload (Handle 8)])"
proof -
  let ?r = "rack_of [e_busy, e_idle, e_unloaded]"
  obtain rc rk tr1 where h: "plugrack_purge_idle (Some ?r) [] = (rc, rk, tr1)"
    by (cases "plugrack_purge_idle (Some ?r) []")
  from purge_idle_exact [OF h] obtain es1 where
    rc: "rc = SLURM_SUCCESS" and rk: "rk = Some (?r\<lparr>entries := es1\<rparr>)" and
    len: "length es1 = length (entries ?r)" and
    nth: "\<forall>i < length (entries ?r).
            es1 ! i =
              (if plug (entries ?r ! i) \<noteq> PLUGIN_INVALID_HANDLE \<and> refcount (entries ?r ! i) = 0
               then (entries ?r ! i)\<lparr>plug := PLUGIN_INVALID_HANDLE\<rparr>
               else entries ?r ! i)" and
    tr: "tr1 = [] @ map (\<lambda>e. Unload (plug e))
            (filter (\<lambda>e. plug e \<noteq> PLUGIN_INVALID_HANDLE \<and> refcount e = 0) (entries ?r))"
    by blast
  have "es1 = [e_busy, e_idle\<lparr>plug := PLUGIN_INVALID_HANDLE\<rparr>, e_unloaded]"
  proof (rule nth_equalityI)
    show "length es1 = length [e_busy, e_idle\<lparr>plug := PLUGIN_INVALID_HANDLE\<rparr>, e_unloaded]"
      using len by (simp add: rack_of_def)
  next
    fix i assume "i < length es1"
    with len have "i = 0 \<or> i = 1 \<or> i = 2" by (auto simp: rack_of_def)
    with nth show "es1 ! i = [e_busy, e_idle\<lparr>plug := PLUGIN_INVALID_HANDLE\<rparr>, e_unloaded] ! i"
      by (auto simp: ex_defs)
  qed
  moreover from tr have "tr1 = [Unload (Handle 8)]" by (simp add: ex_defs)
  ultimately show ?thesis using h rc rk by (simp add: rack_of_def)
qed

subsection \<open>Loading every plugin\<close>

text \<open>
  C7. The specification asks that after \<open>plugrack_load_all\<close> every entry that was not
  loaded and whose load succeeds holds a loaded handle. The theorem runs it on a rack with one
  entry that is not loaded, with a loader that returns handle 1 for its path: the loader
  is called, the call succeeds, and the rack is the rack it was, its entry still holding
  the invalid handle. With a loader that fails, the loader is called for both entries of
  a rack and the status is still \<open>SLURM_SUCCESS\<close>.
\<close>

theorem load_all_drops_handles:
  "load_file demo_world [] ''/d/a.so'' = Handle 1 \<and>
   plugrack_load_all demo_world (Some (rack_of [e_unloaded])) [] =
     (SLURM_SUCCESS, Some (rack_of [e_unloaded]), [Load ''/d/a.so'']) \<and>
   plug e_unloaded = PLUGIN_INVALID_HANDLE \<and>
   plugrack_load_all failing_world (Some (rack_of [e_unloaded, e_counted])) [] =
     (SLURM_SUCCESS, Some (rack_of [e_unloaded, e_counted]), [Load ''/d/a.so'', Load ''/d/c.so''])"
  by (simp add: ex_defs op_defs)

subsection \<open>The decision of the security checks\<close>

text \<open>
  C8. \<open>accept_path_paranoia\<close> accepts a node exactly when it can be
  statted and, with the owner switch on, its owner is the user of the rack and, with the
  writability switch on, it is writable neither by its group nor by others; it agrees
  with the decision the specification words whenever a switch is on or the node can be
  statted. \<open>accept_paranoia\<close> accepts every path when the policy of the rack is empty;
  with a policy that is not empty it rejects every path without a separator, and on a
  path \<open>d/f\<close> whose last separator follows a directory part \<open>d\<close> that is not empty
  it is the conjunction of the file-level decision on the path and the directory-level
  decision on \<open>d\<close>.
\<close>

theorem accept_paranoia_decision:
  "(accept_path_paranoia w rack path own wr \<longleftrightarrow>
      (\<exists>st. fs_stat w path = Some st \<and> (own \<longrightarrow> st_uid st = uid rack) \<and>
         (wr \<longrightarrow> st_mode st AND S_IWGRP = 0 \<and> st_mode st AND S_IWOTH = 0))) \<and>
   (own \<or> wr \<or> fs_stat w path \<noteq> None \<longrightarrow>
      accept_path_paranoia w rack path own wr = spec_node_decision w rack path own wr) \<and>
   (paranoia rack = 0 \<longrightarrow> accept_paranoia w rack path) \<and>
   (paranoia rack \<noteq> 0 \<and> CHR ''/'' \<notin> set path \<longrightarrow> \<not> accept_paranoia w rack path) \<and>
   (paranoia rack \<noteq> 0 \<and> d \<noteq> [] \<and> CHR ''/'' \<notin> set f \<longrightarrow>
      accept_paranoia w rack (d @ ''/'' @ f) =
        (accept_path_paranoia w rack (d @ ''/'' @ f)
           (paranoia rack AND PLUGRACK_PARANOIA_FILE_OWN \<noteq> 0)
           (paranoia rack AND PLUGRACK_PARANOIA_FILE_WRITABLE \<noteq> 0) \<and>
         accept_path_paranoia w rack d
           (paranoia rack AND PLUGRACK_PARANOIA_DIR_OWN \<noteq> 0)
           (paranoia rack AND PLUGRACK_PARANOIA_DIR_WRITABLE \<noteq> 0)))"
proof (intro conjI impI)
  show "accept_path_paranoia w rack path own wr \<longleftrightarrow>
      (\<exists>st. fs_stat w path = Some st \<and> (own \<longrightarrow> st_uid st = uid rack) \<and>
         (wr \<longrightarrow> st_mode st AND S_IWGRP = 0 \<and> st_mode st AND S_IWOTH = 0))"
    by (rule accept_path_paranoia_iff)
next
  assume "own \<or> wr \<or> fs_stat w path \<noteq> None"
  then show "accept_path_paranoia w rack path own wr = spec_node_decision w rack path own wr"
    by (rule accept_path_paranoia_spec)
next
  assume "paranoia rack = 0"
  then show "accept_paranoia w rack path" by (simp add: accept_paranoia_def)
next
  assume "paranoia rack \<noteq> 0 \<and> CHR ''/'' \<notin> set path"
  then show "\<not> accept_paranoia w rack path" by (simp add: accept_paranoia_no_separator)
next
  assume "paranoia rack \<noteq> 0 \<and> d \<noteq> [] \<and> CHR ''/'' \<notin> set f"
  then have "paranoia rack \<noteq> 0" and "d \<noteq> []" and "CHR ''/'' \<notin> set f" by simp_all
  then show "accept_paranoia w rack (d @ ''/'' @ f) =
        (accept_path_paranoia w rack (d @ ''/'' @ f)
           (paranoia rack AND PLUGRACK_PARANOIA_FILE_OWN \<noteq> 0)
           (paranoia rack AND PLUGRACK_PARANOIA_FILE_WRITABLE \<noteq> 0) \<and>
         accept_path_paranoia w rack d
           (paranoia rack AND PLUGRACK_PARANOIA_DIR_OWN \<noteq> 0)
           (paranoia rack AND PLUGRACK_PARANOIA_DIR_WRITABLE \<noteq> 0))"
    by (rule accept_paranoia_split)
qed

theorem accept_paranoia_decision_witness:
  "accept_path_paranoia demo_world auth_rack ''/d/a.so'' True True \<and>
   \<not> accept_path_paranoia demo_world auth_rack ''/d/evil.so'' True True \<and>
   accept_paranoia demo_world plugrack_create ''a.so'' \<and>
   \<not> accept_paranoia demo_world auth_rack ''a.so'' \<and>
   accept_paranoia demo_world auth_rack ''/d/a.so'' \<and>
   \<not> accept_paranoia demo_world auth_rack ''/d/evil.so''"
proof -
  note t = accept_paranoia_decision [where w = demo_world]
  have n0: "paranoia plugrack_create = 0" by (simp add: ex_defs)
  have n1: "paranoia auth_rack \<noteq> 0 \<and> CHR ''/'' \<notin> set ''a.so''" by (simp add: ex_defs)
  have n2: "paranoia auth_rack \<noteq> 0 \<and> ''/d'' \<noteq> [] \<and> CHR ''/'' \<notin> set ''a.so''"
    by (simp add: ex_defs)
  have n3: "paranoia auth_rack \<noteq> 0 \<and> ''/d'' \<noteq> [] \<and> CHR ''/'' \<notin> set ''evil.so''"
    by (simp add: ex_defs)
  from t [where rack = auth_rack and path = "''/d/a.so''" and own = True and wr = True,
      THEN conjunct1]
  have "accept_path_paranoia demo_world auth_rack ''/d/a.so'' True True"
    by (simp add: ex_defs)
  moreover
  from t [where rack = auth_rack and path = "''/d/evil.so''" and own = True and wr = True,
      THEN conjunct1]
  have "\<not> accept_path_paranoia demo_world auth_rack ''/d/evil.so'' True True"
    by (simp add: ex_defs)
  moreover
  from t [where rack = plugrack_create and path = "''a.so''",
      THEN conjunct2, THEN conjunct2, THEN conjunct1, rule_format, OF n0]
  have "accept_paranoia demo_world plugrack_create ''a.so''" .
  moreover
  from t [where rack = auth_rack and path = "''a.so''",
      THEN conjunct2, THEN conjunct2, THEN conjunct2, THEN conjunct1, rule_format, OF n1]
  have "\<not> accept_paranoia demo_world auth_rack ''a.so''" .
  moreover
  from t [where rack = auth_rack and d = "''/d''" and f = "''a.so''",
      THEN conjunct2, THEN conjunct2, THEN conjunct2, THEN conjunct2, rule_format, OF n2]
  have "accept_paranoia demo_world auth_rack ''/d/a.so''"
    by (simp add: ex_defs accept_path_paranoia_def)
  moreover
  from t [where rack = auth_rack and d = "''/d''" and f = "''evil.so''",
      THEN conjunct2, THEN conjunct2, THEN conjunct2, THEN conjunct2, rule_format, OF n3]
  have "\<not> accept_paranoia demo_world auth_rack ''/d/evil.so''"
    by (simp add: ex_defs accept_path_paranoia_def)
  ultimately show ?thesis by blast
qed

text \<open>
  The two decisions differ on a node that cannot be statted when both switches are off:
  the specification's accepts it and \<open>accept_path_paranoia\<close> rejects it. And with an
  empty policy \<open>accept_paranoia\<close> accepts a path that has no separator.
\<close>

theorem accept_path_paranoia_counterexample:
  "spec_node_decision demo_world plugrack_create ''/missing'' False False \<and>
   \<not> accept_path_paranoia demo_world plugrack_create ''/missing'' False False \<and>
   accept_paranoia demo_world plugrack_create ''a.so''"
  by (simp add: spec_node_decision_def accept_path_paranoia_def accept_paranoia_def ex_defs)

subsection \<open>The type filter of discovery\<close>

text \<open>
  C9. For a rack whose major type, when set, is a C string: a file whose peek gave the
  type \<open>t\<close> is accepted exactly when no major type is set or the major type is a prefix
  of \<open>t\<close>, with nothing asked of the character that follows the prefix.
  \<open>plugrack_add_plugin_file\<close>, on a file that passed the security checks, then appends
  the entry and succeeds, and returns \<open>SLURM_ERROR\<close> with the rack unchanged otherwise.
  \<open>plugrack_read_dir\<close>, on a directory that passed its checks and whose names are
  shorter than \<^verbatim>\<open>NAME_MAX\<close>, returns \<open>SLURM_SUCCESS\<close> and the rack it was given with,
  appended in the order read, one entry for each name that is a regular file, got
  through the check of the loop, peeked as some type and was accepted; it holds no entry
  for a name whose type was not accepted, and every name that got as far as the peek was
  peeked.
\<close>

theorem namespace_prefix_filter:
  assumes "\<forall>m. major_type r = Some m \<longrightarrow> c_string m"
  shows
   "(accept_paranoia w r p \<and> peek_type w p = Some t \<longrightarrow>
       plugrack_add_plugin_file w (Some r) (Some p) tr =
         (if major_type r = None \<or> (\<exists>m. major_type r = Some m \<and> prefix m t)
          then (SLURM_SUCCESS,
                Some (r\<lparr>entries := entries r @
                  [\<lparr> full_type = t, fq_path = p, plug = PLUGIN_INVALID_HANDLE, refcount = 0 \<rparr>]\<rparr>),
                tr @ [Peek p])
          else (SLURM_ERROR, Some r, tr @ [Peek p]))) \<and>
    (accept_path_paranoia w r d
       (paranoia r AND PLUGRACK_PARANOIA_DIR_OWN \<noteq> 0)
       (paranoia r AND PLUGRACK_PARANOIA_DIR_WRITABLE \<noteq> 0) \<and>
     fs_readdir w d = Some names \<and> (\<forall>n \<in> set names. length n < NAME_MAX) \<longrightarrow>
       plugrack_read_dir w (Some r) (Some d) tr =
         (SLURM_SUCCESS,
          Some (r\<lparr>entries := entries r @
            List.map_filter
              (\<lambda>n. case fs_stat w (d @ ''/'' @ n) of
                     None \<Rightarrow> None
                   | Some st \<Rightarrow>
                       if S_ISREG (st_mode st) \<and>
                          accept_path_paranoia w r d
                            (paranoia r AND PLUGRACK_PARANOIA_FILE_OWN \<noteq> 0)
                            (paranoia r AND PLUGRACK_PARANOIA_FILE_WRITABLE \<noteq> 0)
                       then
                         (case peek_type w (d @ ''/'' @ n) of
                            None \<Rightarrow> None
                          | Some t \<Rightarrow>
                              if major_type r = None \<or> (\<exists>m. major_type r = Some m \<and> prefix m t)
                              then Some \<lparr> full_type = t, fq_path = d @ ''/'' @ n,
                                          plug = PLUGIN_INVALID_HANDLE, refcount = 0 \<rparr>
                              else None)
                       else None)
              names\<rparr>),
          tr @ map (\<lambda>n. Peek (d @ ''/'' @ n))
                 (filter
                    (\<lambda>n. case fs_stat w (d @ ''/'' @ n) of
                           None \<Rightarrow> False
                         | Some st \<Rightarrow>
                             S_ISREG (st_mode st) \<and>
                             accept_path_paranoia w r d
                               (paranoia r AND PLUGRACK_PARANOIA_FILE_OWN \<noteq> 0)
                               (paranoia r AND PLUGRACK_PARANOIA_FILE_WRITABLE \<noteq> 0))
                    names)))"
proof -
  have m: "type_mismatch r t \<longleftrightarrow>
      \<not> (major_type r = None \<or> (\<exists>m. major_type r = Some m \<and> prefix m t))" for t
    by (rule type_mismatch_iff [OF assms])
  have acc: "(if type_mismatch r t then None else Some e) =
      (if major_type r = None \<or> (\<exists>m. major_type r = Some m \<and> prefix m t) then Some e else None)"
    for t and e :: plugrack_entry_t
    unfolding m by simp
  show ?thesis
  proof (intro conjI impI)
    assume "accept_paranoia w r p \<and> peek_type w p = Some t"
    then have "accept_paranoia w r p" and "peek_type w p = Some t" by simp_all
    note e = add_plugin_file_peeked [OF this, of tr]
    show "plugrack_add_plugin_file w (Some r) (Some p) tr =
         (if major_type r = None \<or> (\<exists>m. major_type r = Some m \<and> prefix m t)
          then (SLURM_SUCCESS,
                Some (r\<lparr>entries := entries r @
                  [\<lparr> full_type = t, fq_path = p, plug = PLUGIN_INVALID_HANDLE, refcount = 0 \<rparr>]\<rparr>),
                tr @ [Peek p])
          else (SLURM_ERROR, Some r, tr @ [Peek p]))"
      unfolding e m by simp
  next
    assume a: "accept_path_paranoia w r d
       (paranoia r AND PLUGRACK_PARANOIA_DIR_OWN \<noteq> 0)
       (paranoia r AND PLUGRACK_PARANOIA_DIR_WRITABLE \<noteq> 0) \<and>
     fs_readdir w d = Some names \<and> (\<forall>n \<in> set names. length n < NAME_MAX)"
    then have "accept_path_paranoia w r d
       (paranoia r AND PLUGRACK_PARANOIA_DIR_OWN \<noteq> 0)
       (paranoia r AND PLUGRACK_PARANOIA_DIR_WRITABLE \<noteq> 0)" and "fs_readdir w d = Some names"
      by simp_all
    note o = read_dir_opened [OF this, of tr]
    show "plugrack_read_dir w (Some r) (Some d) tr =
         (SLURM_SUCCESS,
          Some (r\<lparr>entries := entries r @
            List.map_filter
              (\<lambda>n. case fs_stat w (d @ ''/'' @ n) of
                     None \<Rightarrow> None
                   | Some st \<Rightarrow>
                       if S_ISREG (st_mode st) \<and>
                          accept_path_paranoia w r d
                            (paranoia r AND PLUGRACK_PARANOIA_FILE_OWN \<noteq> 0)
                            (paranoia r AND PLUGRACK_PARANOIA_FILE_WRITABLE \<noteq> 0)
                       then
                         (case peek_type w (d @ ''/'' @ n) of
                            None \<Rightarrow> None
                          | Some t \<Rightarrow>
                              if major_type r = None \<or> (\<exists>m. major_type r = Some m \<and> prefix m t)
                              then Some \<lparr> full_type = t, fq_path = d @ ''/'' @ n,
                                          plug = PLUGIN_INVALID_HANDLE, refcount = 0 \<rparr>
                              else None)
                       else None)
              names\<rparr>),
          tr @ map (\<lambda>n. Peek (d @ ''/'' @ n))
                 (filter
                    (\<lambda>n. case fs_stat w (d @ ''/'' @ n) of
                           None \<Rightarrow> False
                         | Some st \<Rightarrow>
                             S_ISREG (st_mode st) \<and>
                             accept_path_paranoia w r d
                               (paranoia r AND PLUGRACK_PARANOIA_FILE_OWN \<noteq> 0)
                               (paranoia r AND PLUGRACK_PARANOIA_FILE_WRITABLE \<noteq> 0))
                    names))"
      unfolding o read_dir_loop_scan acc by simp
  qed
qed

theorem namespace_prefix_filter_witness:
  "plugrack_add_plugin_file demo_world (Some auth_rack) (Some ''/d/a.so'') [] =
     (SLURM_SUCCESS, Some (auth_rack\<lparr>entries := [e_unloaded]\<rparr>), [Peek ''/d/a.so'']) \<and>
   plugrack_add_plugin_file demo_world (Some (auth_rack\<lparr>major_type := Some ''sched''\<rparr>))
       (Some ''/d/a.so'') [] =
     (SLURM_ERROR, Some (auth_rack\<lparr>major_type := Some ''sched''\<rparr>), [Peek ''/d/a.so'']) \<and>
   plugrack_read_dir demo_world (Some auth_rack) (Some ''/d'') [] =
     (SLURM_SUCCESS,
      Some (auth_rack\<lparr>entries :=
        [e_unloaded,
         \<lparr> full_type = ''authxyz'', fq_path = ''/d/evil.so'',
           plug = PLUGIN_INVALID_HANDLE, refcount = 0 \<rparr>]\<rparr>),
      [Peek ''/d/a.so'', Peek ''/d/evil.so'']) \<and>
   plugrack_read_dir demo_world (Some (auth_rack\<lparr>major_type := Some ''sched''\<rparr>))
       (Some ''/d'') [] =
     (SLURM_SUCCESS, Some (auth_rack\<lparr>major_type := Some ''sched''\<rparr>),
      [Peek ''/d/a.so'', Peek ''/d/evil.so''])"
proof -
  let ?s = "auth_rack\<lparr>major_type := Some ''sched''\<rparr>"
  have a: "\<forall>m. major_type auth_rack = Some m \<longrightarrow> c_string m"
    by (simp add: auth_rack_def c_string_def)
  have s: "\<forall>m. major_type ?s = Some m \<longrightarrow> c_string m"
    by (simp add: c_string_def)
  have 1: "accept_paranoia demo_world auth_rack ''/d/a.so'' \<and>
      peek_type demo_world ''/d/a.so'' = Some ''auth/x''"
    by (simp add: ex_defs accept_paranoia_def accept_path_paranoia_def)
  have 2: "accept_paranoia demo_world ?s ''/d/a.so'' \<and>
      peek_type demo_world ''/d/a.so'' = Some ''auth/x''"
    by (simp add: ex_defs accept_paranoia_def accept_path_paranoia_def)
  have 3: "accept_path_paranoia demo_world auth_rack ''/d''
        (paranoia auth_rack AND PLUGRACK_PARANOIA_DIR_OWN \<noteq> 0)
        (paranoia auth_rack AND PLUGRACK_PARANOIA_DIR_WRITABLE \<noteq> 0) \<and>
      fs_readdir demo_world ''/d'' = Some [''a.so'', ''sub'', ''evil.so''] \<and>
      (\<forall>n \<in> set [''a.so'', ''sub'', ''evil.so'']. length n < NAME_MAX)"
    by (simp add: ex_defs accept_path_paranoia_def)
  have 4: "accept_path_paranoia demo_world ?s ''/d''
        (paranoia ?s AND PLUGRACK_PARANOIA_DIR_OWN \<noteq> 0)
        (paranoia ?s AND PLUGRACK_PARANOIA_DIR_WRITABLE \<noteq> 0) \<and>
      fs_readdir demo_world ''/d'' = Some [''a.so'', ''sub'', ''evil.so''] \<and>
      (\<forall>n \<in> set [''a.so'', ''sub'', ''evil.so'']. length n < NAME_MAX)"
    by (simp add: ex_defs accept_path_paranoia_def)
  from namespace_prefix_filter [OF a, where w = demo_world and tr = "[]" and p = "''/d/a.so''"
      and t = "''auth/x''", THEN conjunct1, rule_format, OF 1]
  have "plugrack_add_plugin_file demo_world (Some auth_rack) (Some ''/d/a.so'') [] =
     (SLURM_SUCCESS, Some (auth_rack\<lparr>entries := [e_unloaded]\<rparr>), [Peek ''/d/a.so''])"
    by (simp add: auth_rack_def e_unloaded_def)
  moreover
  from namespace_prefix_filter [OF s, where w = demo_world and tr = "[]" and p = "''/d/a.so''"
      and t = "''auth/x''", THEN conjunct1, rule_format, OF 2]
  have "plugrack_add_plugin_file demo_world (Some ?s) (Some ''/d/a.so'') [] =
     (SLURM_ERROR, Some ?s, [Peek ''/d/a.so''])"
    by simp
  moreover
  from namespace_prefix_filter [OF a, where w = demo_world and tr = "[]" and d = "''/d''"
      and names = "[''a.so'', ''sub'', ''evil.so'']", THEN conjunct2, rule_format, OF 3]
  have "plugrack_read_dir demo_world (Some auth_rack) (Some ''/d'') [] =
     (SLURM_SUCCESS,
      Some (auth_rack\<lparr>entries :=
        [e_unloaded,
         \<lparr> full_type = ''authxyz'', fq_path = ''/d/evil.so'',
           plug = PLUGIN_INVALID_HANDLE, refcount = 0 \<rparr>]\<rparr>),
      [Peek ''/d/a.so'', Peek ''/d/evil.so''])"
    by (simp add: ex_defs accept_path_paranoia_def)
  moreover
  from namespace_prefix_filter [OF s, where w = demo_world and tr = "[]" and d = "''/d''"
      and names = "[''a.so'', ''sub'', ''evil.so'']", THEN conjunct2, rule_format, OF 4]
  have "plugrack_read_dir demo_world (Some ?s) (Some ''/d'') [] =
     (SLURM_SUCCESS, Some ?s, [Peek ''/d/a.so'', Peek ''/d/evil.so''])"
    by (simp add: ex_defs accept_path_paranoia_def)
  ultimately show ?thesis by blast
qed

subsection \<open>Releasing the invalid handle\<close>



end
